theory Spec2Isabelle
  imports Main "HOL-Library.Word" "HOL-Library.Product_Lexorder"
begin

unbundle bit_operations_syntax

section \<open>The Snowflake identifier generator of \<^verbatim>\<open>main.go\<close>\<close>

subsection \<open>Constants\<close>

text \<open>
  The three \<^verbatim>\<open>const\<close> blocks. Go's untyped constants are integers of arbitrary
  precision, so they are modelled as \<open>int\<close> (bit widths and shifts as \<open>nat\<close>) and
  converted to \<open>int64\<close> where the code uses them with an \<open>int64\<close> operand.
\<close>

definition epoch :: int where
  "epoch = 1629980400000"

definition machineBits :: nat where
  "machineBits = 5"

definition dataCenterBits :: nat where
  "dataCenterBits = 5"

definition sequenceBits :: nat where
  "sequenceBits = 12"

definition maxMachineID :: int where
  "maxMachineID = (- 1) XOR (push_bit machineBits (- 1))"

definition maxDataCenterID :: int where
  "maxDataCenterID = (- 1) XOR (push_bit dataCenterBits (- 1))"

definition maxSequence :: int where
  "maxSequence = (- 1) XOR (push_bit sequenceBits (- 1))"

definition machineShift :: nat where
  "machineShift = sequenceBits"

definition dataCenterShift :: nat where
  "dataCenterShift = sequenceBits + machineBits"

definition timestampShift :: nat where
  "timestampShift = sequenceBits + machineBits + dataCenterBits"

subsection \<open>The generator\<close>

text \<open>
  Go's \<open>int64\<close> is a 64-bit word: \<open>+\<close> and \<open>-\<close> wrap around, \<open><<\<close> is
  \<open>push_bit\<close> (bits shifted out are lost), \<open>&\<close> and \<open>|\<close> are \<open>AND\<close> and \<open>OR\<close>,
  and the comparisons \<open><\<close> and \<open>>\<close> are the signed ones, \<open><s\<close>.
\<close>

type_synonym int64 = "64 word"

text \<open>
  The struct \<^verbatim>\<open>Snowflake\<close>. The mutex \<^verbatim>\<open>mu\<close> is held for the whole of
  \<^verbatim>\<open>Generate\<close>, which therefore runs as one atomic step on the four fields below.
\<close>

record Snowflake =
  machineID :: int64
  dataCenterID :: int64
  sequence :: int64
  lastTimestamp :: int64

text \<open>A Go \<^verbatim>\<open>error\<close> made by \<^verbatim>\<open>fmt.Errorf\<close>: the format string and its argument.\<close>

datatype error = Errorf string int

definition NewSnowflake :: "int64 \<Rightarrow> int64 \<Rightarrow> error + Snowflake" where
  "NewSnowflake mID dcID =
     (if mID <s 0 \<or> word_of_int maxMachineID <s mID then
        Inl (Errorf ''machine ID must be between 0 and %d'' maxMachineID)
      else if dcID <s 0 \<or> word_of_int maxDataCenterID <s dcID then
        Inl (Errorf ''data center ID must be between 0 and %d'' maxDataCenterID)
      else
        Inr \<lparr>machineID = mID, dataCenterID = dcID, sequence = 0, lastTimestamp = 0\<rparr>)"

text \<open>
  The wall clock is the environment of \<^verbatim>\<open>Generate\<close>: \<open>clk k\<close> is the value that the
  \<open>k\<close>-th evaluation of \<^verbatim>\<open>time.Now().UnixMilli()\<close> returns, and the number of
  evaluations made so far is threaded through the calls.
\<close>

type_synonym clock = "nat \<Rightarrow> int64"

definition now_timestamp :: "clock \<Rightarrow> nat \<Rightarrow> int64" where
  "now_timestamp clk k = clk k - word_of_int epoch"

text \<open>
  The loop \<^verbatim>\<open>for timestamp == s.lastTimestamp { timestamp = time.Now().UnixMilli() - epoch }\<close>.
  It runs for as long as the clock shows the last timestamp, so it is a partial function:
  \<open>None\<close> is the loop that never ends.
\<close>

partial_function (option) wait_loop :: "clock \<Rightarrow> int64 \<Rightarrow> int64 \<Rightarrow> nat \<Rightarrow> (int64 \<times> nat) option" where [code]:
  "wait_loop clk lastT timestamp k =
     (if timestamp = lastT then wait_loop clk lastT (now_timestamp clk k) (Suc k)
      else Some (timestamp, k))"

text \<open>Line 77: the identifier built from the timestamp and the fields of the generator.\<close>

definition build_id :: "int64 \<Rightarrow> Snowflake \<Rightarrow> int64" where
  "build_id timestamp s =
     push_bit timestampShift timestamp OR push_bit dataCenterShift (dataCenterID s)
       OR push_bit machineShift (machineID s) OR sequence s"

text \<open>Lines 73 to 79: store the timestamp, build the identifier, return it with a nil error.\<close>

definition finish :: "Snowflake \<Rightarrow> int64 \<Rightarrow> nat \<Rightarrow> ((int64 \<times> error option) \<times> Snowflake \<times> nat) option" where
  "finish s timestamp k =
     (let s = s\<lparr>lastTimestamp := timestamp\<rparr>;
          ident = build_id timestamp s
      in Some ((ident, None), s, k))"

text \<open>
  \<^verbatim>\<open>Generate\<close>: the result of the call (identifier and error, \<open>None\<close> being \<^verbatim>\<open>nil\<close>),
  the generator after the call and the number of clock readings made; \<open>None\<close> when the
  call never returns.
\<close>

definition Generate :: "clock \<Rightarrow> Snowflake \<Rightarrow> nat \<Rightarrow> ((int64 \<times> error option) \<times> Snowflake \<times> nat) option" where
  "Generate clk s k =
     (let timestamp = now_timestamp clk k; k = Suc k in
      if timestamp = lastTimestamp s then
        let s = s\<lparr>sequence := (sequence s + 1) AND word_of_int maxSequence\<rparr> in
        if sequence s = 0 then
          (case wait_loop clk (lastTimestamp s) timestamp k of
             None \<Rightarrow> None
           | Some (timestamp, k) \<Rightarrow> finish s timestamp k)
        else finish s timestamp k
      else
        finish (s\<lparr>sequence := 0\<rparr>) timestamp k)"

text \<open>
  A run of \<open>n\<close> successive calls on one generator: the identifiers of the calls that
  returned a nil error, in call order, with the final generator.
\<close>

fun calls :: "clock \<Rightarrow> nat \<Rightarrow> Snowflake \<Rightarrow> nat \<Rightarrow> (int64 list \<times> Snowflake \<times> nat) option" where
  "calls clk 0 s k = Some ([], s, k)"
| "calls clk (Suc n) s k =
     (case Generate clk s k of
        None \<Rightarrow> None
      | Some ((ident, err), s', k') \<Rightarrow>
          (case calls clk n s' k' of
             None \<Rightarrow> None
           | Some (ids, fin) \<Rightarrow> Some ((if err = None then [ident] else []) @ ids, fin)))"

text \<open>
  The same run, observed at the generator: the value of \<open>lastTimestamp\<close> after each call
  that returned a nil error, in call order.
\<close>

fun timestamps :: "clock \<Rightarrow> nat \<Rightarrow> Snowflake \<Rightarrow> nat \<Rightarrow> int64 list option" where
  "timestamps clk 0 s k = Some []"
| "timestamps clk (Suc n) s k =
     (case Generate clk s k of
        None \<Rightarrow> None
      | Some ((ident, err), s', k') \<Rightarrow>
          (case timestamps clk n s' k' of
             None \<Rightarrow> None
           | Some ts \<Rightarrow> Some ((if err = None then [lastTimestamp s'] else []) @ ts)))"

subsection \<open>The fields of an identifier\<close>

definition timestamp_field :: "int64 \<Rightarrow> int64" where
  "timestamp_field ident = drop_bit timestampShift ident"

definition dataCenter_field :: "int64 \<Rightarrow> int64" where
  "dataCenter_field ident = drop_bit dataCenterShift ident AND mask dataCenterBits"

definition machine_field :: "int64 \<Rightarrow> int64" where
  "machine_field ident = drop_bit machineShift ident AND mask machineBits"

definition sequence_field :: "int64 \<Rightarrow> int64" where
  "sequence_field ident = ident AND mask sequenceBits"


subsection \<open>Generator states and clocks\<close>

text \<open>
  The ranges of the data model: what \<^verbatim>\<open>NewSnowflake\<close> checks of the two identifiers,
  and the range in which \<^verbatim>\<open>Generate\<close> keeps the sequence.
\<close>

definition valid :: "Snowflake \<Rightarrow> bool" where
  "valid s \<longleftrightarrow>
     0 \<le>s machineID s \<and> machineID s \<le>s word_of_int maxMachineID \<and>
     0 \<le>s dataCenterID s \<and> dataCenterID s \<le>s word_of_int maxDataCenterID \<and>
     0 \<le>s sequence s \<and> sequence s \<le>s word_of_int maxSequence"



text \<open>The observed timestamps never regress: each is at least the one before it.\<close>

definition timestamps_never_regress :: "clock \<Rightarrow> bool" where
  "timestamps_never_regress clk \<longleftrightarrow> (\<forall>k. now_timestamp clk k \<le>s now_timestamp clk (Suc k))"


text \<open>
  A mocked clock: it shows the millisecond \<open>t\<close> at its first \<open>n\<close> readings and the
  millisecond \<open>t'\<close> at every later one.
\<close>

definition mocked :: "int64 \<Rightarrow> nat \<Rightarrow> int64 \<Rightarrow> clock" where
  "mocked t n t' k = (if k < n then t else t')"

text \<open>
  A clock mocked from a list of readings: it shows them in order and stays at the last one.
\<close>

definition readings :: "int64 list \<Rightarrow> clock" where
  "readings ts k = (if k < length ts then ts ! k else last ts)"

section \<open>Auxiliary facts\<close>

lemma maxMachineID_eq: "maxMachineID = 31"
  by (simp add: maxMachineID_def machineBits_def mask_eq_exp_minus_1)

lemma maxDataCenterID_eq: "maxDataCenterID = 31"
  by (simp add: maxDataCenterID_def dataCenterBits_def mask_eq_exp_minus_1)

lemma maxSequence_eq: "maxSequence = 4095"
  by (simp add: maxSequence_def sequenceBits_def mask_eq_exp_minus_1)

lemma wait_loop_neq: "timestamp \<noteq> lastT \<Longrightarrow> wait_loop clk lastT timestamp k = Some (timestamp, k)"
  by (subst wait_loop.simps) simp

lemma wait_loop_eq: "wait_loop clk lastT lastT k = wait_loop clk lastT (now_timestamp clk k) (Suc k)"
  by (subst wait_loop.simps) simp

lemma wait_loop_first:
  "k \<le> j \<Longrightarrow> now_timestamp clk j \<noteq> lastT \<Longrightarrow> (\<forall>i. k \<le> i \<and> i < j \<longrightarrow> now_timestamp clk i = lastT)
   \<Longrightarrow> wait_loop clk lastT lastT k = Some (now_timestamp clk j, Suc j)"
proof (induction "j - k" arbitrary: k)
  case 0
  then have "k = j" by simp
  with 0 show ?case by (simp add: wait_loop_eq wait_loop_neq)
next
  case (Suc d)
  then have "k < j" by simp
  with Suc.prems have "now_timestamp clk k = lastT" by simp
  moreover have "wait_loop clk lastT lastT (Suc k) = Some (now_timestamp clk j, Suc j)"
    using Suc by (intro Suc.hyps(1)) auto
  ultimately show ?case by (subst wait_loop_eq) simp
qed

lemma wait_loop_Some_D:
  assumes "wait_loop clk lastT timestamp k = Some y"
  shows "timestamp = lastT \<longrightarrow> (\<exists>i\<ge>k. now_timestamp clk i \<noteq> lastT)"
  using assms
proof (rule wait_loop.raw_induct[rotated 1, where P = "\<lambda>clk lastT timestamp k y. timestamp = lastT \<longrightarrow> (\<exists>i\<ge>k. now_timestamp clk i \<noteq> lastT)"], goal_cases)
  case (1 wait clk lastT timestamp k y)
  show ?case
  proof (cases "now_timestamp clk k = lastT")
    case True
    show ?thesis
    proof
      assume "timestamp = lastT"
      with 1(2) True have "wait clk lastT lastT (Suc k) = Some y" by simp
      from 1(1)[OF this] obtain i where "i \<ge> Suc k" "now_timestamp clk i \<noteq> lastT" by auto
      then show "\<exists>i\<ge>k. now_timestamp clk i \<noteq> lastT" by (intro exI[of _ i]) simp
    qed
  next
    case False
    then show ?thesis by auto
  qed
qed

text \<open>The loop returns exactly when some later reading differs, and then with the first such.\<close>

lemma wait_loop_None_iff:
  "wait_loop clk lastT lastT k = None \<longleftrightarrow> (\<forall>i\<ge>k. now_timestamp clk i = lastT)"
proof
  assume n: "wait_loop clk lastT lastT k = None"
  show "\<forall>i\<ge>k. now_timestamp clk i = lastT"
  proof (rule ccontr)
    assume "\<not> (\<forall>i\<ge>k. now_timestamp clk i = lastT)"
    then have ex: "\<exists>i. k \<le> i \<and> now_timestamp clk i \<noteq> lastT" by auto
    define j where "j = (LEAST i. k \<le> i \<and> now_timestamp clk i \<noteq> lastT)"
    from ex have j: "k \<le> j \<and> now_timestamp clk j \<noteq> lastT"
      unfolding j_def by (rule LeastI_ex)
    have "\<forall>i. k \<le> i \<and> i < j \<longrightarrow> now_timestamp clk i = lastT"
      unfolding j_def using not_less_Least by blast
    with j have "wait_loop clk lastT lastT k = Some (now_timestamp clk j, Suc j)"
      by (intro wait_loop_first) auto
    with n show False by simp
  qed
next
  assume a: "\<forall>i\<ge>k. now_timestamp clk i = lastT"
  show "wait_loop clk lastT lastT k = None"
  proof (cases "wait_loop clk lastT lastT k")
    case None
    then show ?thesis .
  next
    case (Some y)
    from wait_loop_Some_D [OF this] a show ?thesis by auto
  qed
qed

lemma wait_loop_SomeE:
  assumes "wait_loop clk lastT lastT k = Some (t, k')"
  obtains j where "k \<le> j" "now_timestamp clk j \<noteq> lastT"
    "\<forall>i. k \<le> i \<and> i < j \<longrightarrow> now_timestamp clk i = lastT" "t = now_timestamp clk j" "k' = Suc j"
proof -
  from wait_loop_Some_D [OF assms] have ex: "\<exists>i. k \<le> i \<and> now_timestamp clk i \<noteq> lastT" by auto
  define j where "j = (LEAST i. k \<le> i \<and> now_timestamp clk i \<noteq> lastT)"
  from ex have j: "k \<le> j \<and> now_timestamp clk j \<noteq> lastT"
    unfolding j_def by (rule LeastI_ex)
  have m: "\<forall>i. k \<le> i \<and> i < j \<longrightarrow> now_timestamp clk i = lastT"
    unfolding j_def using not_less_Least by blast
  with j have "wait_loop clk lastT lastT k = Some (now_timestamp clk j, Suc j)"
    by (intro wait_loop_first) auto
  with assms have "t = now_timestamp clk j" "k' = Suc j" by simp_all
  with j m that show thesis by blast
qed

subsection \<open>The constants as words\<close>

lemma max_words:
  "word_of_int maxMachineID = (31::int64)"
  "word_of_int maxDataCenterID = (31::int64)"
  "word_of_int maxSequence = (4095::int64)"
  by (simp_all add: maxMachineID_eq maxDataCenterID_eq maxSequence_eq)

lemma shifts:
  "machineShift = 12" "dataCenterShift = 17" "timestampShift = 22"
  by (simp_all add: machineShift_def dataCenterShift_def timestampShift_def
      sequenceBits_def machineBits_def dataCenterBits_def)

subsection \<open>The three paths of \<^verbatim>\<open>Generate\<close>\<close>

lemma Generate_new:
  assumes "now_timestamp clk k \<noteq> lastTimestamp s"
  shows "Generate clk s k =
    Some ((build_id (now_timestamp clk k) (s\<lparr>sequence := 0, lastTimestamp := now_timestamp clk k\<rparr>), None),
          s\<lparr>sequence := 0, lastTimestamp := now_timestamp clk k\<rparr>, Suc k)"
  using assms by (simp add: Generate_def finish_def Let_def)

lemma Generate_same:
  assumes "now_timestamp clk k = lastTimestamp s" "(sequence s + 1) AND 4095 \<noteq> 0"
  shows "Generate clk s k =
    Some ((build_id (lastTimestamp s) (s\<lparr>sequence := (sequence s + 1) AND 4095\<rparr>), None),
          s\<lparr>sequence := (sequence s + 1) AND 4095\<rparr>, Suc k)"
  using assms by (simp add: Generate_def finish_def Let_def max_words build_id_def)

lemma Generate_wait:
  assumes "now_timestamp clk k = lastTimestamp s" "(sequence s + 1) AND 4095 = 0"
  shows "Generate clk s k =
    (case wait_loop clk (lastTimestamp s) (lastTimestamp s) (Suc k) of
       None \<Rightarrow> None
     | Some (t, k') \<Rightarrow>
         Some ((build_id t (s\<lparr>sequence := 0, lastTimestamp := t\<rparr>), None),
               s\<lparr>sequence := 0, lastTimestamp := t\<rparr>, k'))"
  using assms by (simp add: Generate_def finish_def Let_def max_words split: option.split)

lemma Generate_SomeE:
  assumes "Generate clk s k = Some ((ident, err), s', k')"
  obtains
    (new) "now_timestamp clk k \<noteq> lastTimestamp s"
      "s' = s\<lparr>sequence := 0, lastTimestamp := now_timestamp clk k\<rparr>" "k' = Suc k"
      "err = None" "ident = build_id (lastTimestamp s') s'"
  | (same) "now_timestamp clk k = lastTimestamp s" "(sequence s + 1) AND 4095 \<noteq> 0"
      "s' = s\<lparr>sequence := (sequence s + 1) AND 4095\<rparr>" "k' = Suc k"
      "err = None" "ident = build_id (lastTimestamp s') s'"
  | (wait) j where "now_timestamp clk k = lastTimestamp s" "(sequence s + 1) AND 4095 = 0"
      "k < j" "now_timestamp clk j \<noteq> lastTimestamp s"
      "\<forall>i. k < i \<and> i < j \<longrightarrow> now_timestamp clk i = lastTimestamp s"
      "s' = s\<lparr>sequence := 0, lastTimestamp := now_timestamp clk j\<rparr>" "k' = Suc j"
      "err = None" "ident = build_id (lastTimestamp s') s'"
proof (cases "now_timestamp clk k = lastTimestamp s")
  case False
  with assms have "s' = s\<lparr>sequence := 0, lastTimestamp := now_timestamp clk k\<rparr>" "k' = Suc k"
    "err = None" "ident = build_id (lastTimestamp s') s'"
    by (auto simp: Generate_new)
  with False show thesis by (rule new)
next
  case eq: True
  show thesis
  proof (cases "(sequence s + 1) AND 4095 = 0")
    case False
    with assms eq have "s' = s\<lparr>sequence := (sequence s + 1) AND 4095\<rparr>" "k' = Suc k"
      "err = None" "ident = build_id (lastTimestamp s') s'"
      by (auto simp: Generate_same)
    with eq False show thesis by (rule same)
  next
    case True
    with assms eq obtain t where
      w: "wait_loop clk (lastTimestamp s) (lastTimestamp s) (Suc k) = Some (t, k')"
      and r: "s' = s\<lparr>sequence := 0, lastTimestamp := t\<rparr>" "err = None"
        "ident = build_id t (s\<lparr>sequence := 0, lastTimestamp := t\<rparr>)"
      by (auto simp: Generate_wait split: option.splits)
    from w obtain j where j: "Suc k \<le> j" "now_timestamp clk j \<noteq> lastTimestamp s"
      "\<forall>i. Suc k \<le> i \<and> i < j \<longrightarrow> now_timestamp clk i = lastTimestamp s"
      "t = now_timestamp clk j" "k' = Suc j"
      by (rule wait_loop_SomeE)
    from j(3) have "\<forall>i. k < i \<and> i < j \<longrightarrow> now_timestamp clk i = lastTimestamp s"
      by (simp add: Suc_le_eq)
    with eq True j r show thesis by (intro wait) simp_all
  qed
qed

lemma Generate_None_iff:
  "Generate clk s k = None \<longleftrightarrow>
     (\<forall>i\<ge>k. now_timestamp clk i = lastTimestamp s) \<and> (sequence s + 1) AND 4095 = 0"
proof (cases "now_timestamp clk k = lastTimestamp s")
  case False
  then show ?thesis by (auto simp: Generate_new)
next
  case eq: True
  show ?thesis
  proof (cases "(sequence s + 1) AND 4095 = 0")
    case False
    with eq show ?thesis by (simp add: Generate_same)
  next
    case True
    have "(\<forall>i\<ge>Suc k. now_timestamp clk i = lastTimestamp s) \<longleftrightarrow>
          (\<forall>i\<ge>k. now_timestamp clk i = lastTimestamp s)"
      using eq by (metis Suc_leD Suc_leI le_neq_implies_less)
    moreover have "Generate clk s k = None \<longleftrightarrow>
        wait_loop clk (lastTimestamp s) (lastTimestamp s) (Suc k) = None"
      using eq True by (simp add: Generate_wait split: option.split)
    ultimately show ?thesis
      using True by (simp add: wait_loop_None_iff)
  qed
qed

text \<open>A run of a numeral number of calls, unfolded by one call.\<close>

lemma calls_numeral:
  "calls clk (numeral n) s k =
     (case Generate clk s k of
        None \<Rightarrow> None
      | Some ((ident, err), s', k') \<Rightarrow>
          (case calls clk (pred_numeral n) s' k' of
             None \<Rightarrow> None
           | Some (ids, fin) \<Rightarrow> Some ((if err = None then [ident] else []) @ ids, fin)))"
  by (simp only: numeral_eq_Suc calls.simps)

section \<open>Construction\<close>

text \<open>
  Claim C5. \<^verbatim>\<open>NewSnowflake\<close> returns an error exactly when the machine identifier is
  outside \<open>[0, 2 ^ machineBits - 1]\<close> or the data-centre identifier is outside
  \<open>[0, 2 ^ dataCenterBits - 1]\<close>. The spec's \<open>Construct(dataCenterID, machineID)\<close> is
  \<open>NewSnowflake machineID dataCenterID\<close>; as both widths are 5, the examples are given in
  both argument orders: \<open>- 1\<close> and \<open>2 ^ 5\<close> are refused in either place, \<open>(0, 0)\<close> and
  \<open>(31, 31)\<close> are accepted, and an accepted generator starts with \<open>lastTimestamp = 0\<close> and
  \<open>sequence = 0\<close>.
\<close>

theorem NewSnowflake_bounds:
  "((\<exists>e. NewSnowflake mID dcID = Inl e) \<longleftrightarrow>
      \<not> (0 \<le>s mID \<and> mID \<le>s 2 ^ machineBits - 1) \<or> \<not> (0 \<le>s dcID \<and> dcID \<le>s 2 ^ dataCenterBits - 1))
   \<and> (\<exists>e. NewSnowflake 0 (- 1) = Inl e) \<and> (\<exists>e. NewSnowflake (- 1) 0 = Inl e)
   \<and> (\<exists>e. NewSnowflake (2 ^ machineBits) 0 = Inl e) \<and> (\<exists>e. NewSnowflake 0 (2 ^ dataCenterBits) = Inl e)
   \<and> (\<exists>s. NewSnowflake 0 0 = Inr s)
   \<and> (\<exists>s. NewSnowflake (2 ^ machineBits - 1) (2 ^ dataCenterBits - 1) = Inr s)
   \<and> (\<forall>s. NewSnowflake mID dcID = Inr s \<longrightarrow>
         lastTimestamp s = 0 \<and> sequence s = 0 \<and> machineID s = mID \<and> dataCenterID s = dcID)"
proof -
  have iff: "(\<exists>e. NewSnowflake mID dcID = Inl e) \<longleftrightarrow>
      \<not> (0 \<le>s mID \<and> mID \<le>s 2 ^ machineBits - 1) \<or> \<not> (0 \<le>s dcID \<and> dcID \<le>s 2 ^ dataCenterBits - 1)"
    by (auto simp: NewSnowflake_def max_words machineBits_def dataCenterBits_def word_sless_alt word_sle_eq)
  have ex: "(\<exists>e. NewSnowflake 0 (- 1) = Inl e)" "(\<exists>e. NewSnowflake (- 1) 0 = Inl e)"
    "(\<exists>e. NewSnowflake (2 ^ machineBits) 0 = Inl e)" "(\<exists>e. NewSnowflake 0 (2 ^ dataCenterBits) = Inl e)"
    "(\<exists>s. NewSnowflake 0 0 = Inr s)"
    "(\<exists>s. NewSnowflake (2 ^ machineBits - 1) (2 ^ dataCenterBits - 1) = Inr s)"
    by (simp_all add: NewSnowflake_def max_words machineBits_def dataCenterBits_def word_sless_alt word_sle_eq)
  have ok: "\<forall>s. NewSnowflake mID dcID = Inr s \<longrightarrow>
         lastTimestamp s = 0 \<and> sequence s = 0 \<and> machineID s = mID \<and> dataCenterID s = dcID"
    by (auto simp: NewSnowflake_def split: if_splits)
  from iff ex ok show ?thesis by blast
qed

text \<open>At \<open>(3, 7)\<close> construction succeeds, at \<open>(32, 7)\<close> it fails.\<close>

theorem NewSnowflake_bounds_witness:
  "NewSnowflake 3 7 = Inr \<lparr>machineID = 3, dataCenterID = 7, sequence = 0, lastTimestamp = 0\<rparr>
   \<and> lastTimestamp \<lparr>machineID = 3, dataCenterID = 7, sequence = 0, lastTimestamp = 0\<rparr> = 0
   \<and> \<not> (\<exists>e. NewSnowflake 3 7 = Inl e)
   \<and> (\<exists>e. NewSnowflake 32 7 = Inl e)"
  using NewSnowflake_bounds [of 3 7] NewSnowflake_bounds [of 32 7]
  by (simp add: NewSnowflake_def max_words machineBits_def dataCenterBits_def word_sless_alt word_sle_eq)

section \<open>The error result\<close>

text \<open>
  Claim C9. Whatever the generator and the clock are, a call of \<^verbatim>\<open>Generate\<close> that returns
  does so with a nil error and an identifier, also when the reading is below
  \<open>lastTimestamp\<close>. The only call that does not return is the one that waits for the
  next millisecond (the reading equals \<open>lastTimestamp\<close> and the sequence wraps to 0) on a
  clock that shows \<open>lastTimestamp\<close> for ever.
\<close>

theorem Generate_error_nil:
  "(\<forall>ident err s' k'. Generate clk s k = Some ((ident, err), s', k') \<longrightarrow> err = None) \<and>
   (Generate clk s k = None \<longleftrightarrow>
      (\<forall>i\<ge>k. now_timestamp clk i = lastTimestamp s) \<and> (sequence s + 1) AND word_of_int maxSequence = 0)"
proof
  show "\<forall>ident err s' k'. Generate clk s k = Some ((ident, err), s', k') \<longrightarrow> err = None"
    by (auto elim: Generate_SomeE)
  show "Generate clk s k = None \<longleftrightarrow>
      (\<forall>i\<ge>k. now_timestamp clk i = lastTimestamp s) \<and> (sequence s + 1) AND word_of_int maxSequence = 0"
    by (simp only: Generate_None_iff max_words)
qed

text \<open>A reading of 5 after a last timestamp of 10: an identifier and a nil error.\<close>

theorem Generate_error_nil_witness:
  "Generate (mocked 1629980400005 1 1629980400005)
     \<lparr>machineID = 1, dataCenterID = 1, sequence = 0, lastTimestamp = 10\<rparr> 0
   = Some ((21106688, None), \<lparr>machineID = 1, dataCenterID = 1, sequence = 0, lastTimestamp = 5\<rparr>, 1)
   \<and> (None :: error option) = None"
  using Generate_error_nil [of "mocked 1629980400005 1 1629980400005"
      "\<lparr>machineID = 1, dataCenterID = 1, sequence = 0, lastTimestamp = 10\<rparr>" 0]
  by (simp add: Generate_def finish_def build_id_def now_timestamp_def mocked_def epoch_def shifts Let_def)

section \<open>Clock regression\<close>

text \<open>
  What the code does at a reading below \<open>lastTimestamp\<close>: it takes the reading for a new
  millisecond, resets the sequence to 0, stores the smaller timestamp and returns an
  identifier with a nil error.
\<close>

lemma Generate_clock_regression:
  "now_timestamp clk k <s lastTimestamp s \<Longrightarrow>
   Generate clk s k =
     Some ((build_id (now_timestamp clk k) (s\<lparr>sequence := 0\<rparr>), None),
           s\<lparr>sequence := 0, lastTimestamp := now_timestamp clk k\<rparr>, Suc k)"
proof -
  assume "now_timestamp clk k <s lastTimestamp s"
  then have "now_timestamp clk k \<noteq> lastTimestamp s" by auto
  then show ?thesis by (simp add: Generate_new build_id_def)
qed

text \<open>
  Claim C1. \<^verbatim>\<open>Generate\<close> is to return a clock error exactly when the observed timestamp
  is strictly less than \<open>lastTimestamp\<close>, and then no identifier. The code does not: on a
  fresh generator with machine 1 and data centre 1 called at the milliseconds 5, 10 and 5
  after the epoch, the third call observes 5 below \<open>lastTimestamp = 10\<close> and returns a nil
  error with the identifier 21106688, which the first call has returned already, where
  the comment of \<^verbatim>\<open>Generate\<close> says that it generates a unique identifier.
\<close>

theorem clock_regression_reissues_identifier:
  "NewSnowflake 1 1 = Inr \<lparr>machineID = 1, dataCenterID = 1, sequence = 0, lastTimestamp = 0\<rparr>
   \<and> calls (readings [1629980400005, 1629980400010, 1629980400005]) 2
        \<lparr>machineID = 1, dataCenterID = 1, sequence = 0, lastTimestamp = 0\<rparr> 0
      = Some ([21106688, 42078208],
          \<lparr>machineID = 1, dataCenterID = 1, sequence = 0, lastTimestamp = 10\<rparr>, 2)
   \<and> now_timestamp (readings [1629980400005, 1629980400010, 1629980400005]) 2
        <s lastTimestamp \<lparr>machineID = 1, dataCenterID = 1, sequence = 0, lastTimestamp = 10\<rparr>
   \<and> Generate (readings [1629980400005, 1629980400010, 1629980400005])
        \<lparr>machineID = 1, dataCenterID = 1, sequence = 0, lastTimestamp = 10\<rparr> 2
      = Some ((21106688, None),
          \<lparr>machineID = 1, dataCenterID = 1, sequence = 0, lastTimestamp = 5\<rparr>, 3)
   \<and> calls (readings [1629980400005, 1629980400010, 1629980400005]) 3
        \<lparr>machineID = 1, dataCenterID = 1, sequence = 0, lastTimestamp = 0\<rparr> 0
      = Some ([21106688, 42078208, 21106688],
          \<lparr>machineID = 1, dataCenterID = 1, sequence = 0, lastTimestamp = 5\<rparr>, 3)
   \<and> \<not> distinct [21106688, 42078208, 21106688 :: int64]"
  by (simp add: NewSnowflake_def calls_numeral Generate_def finish_def build_id_def
      now_timestamp_def readings_def epoch_def shifts max_words Let_def word_sless_alt)

section \<open>Frame\<close>

text \<open>
  Claim C10. A call of \<^verbatim>\<open>Generate\<close> leaves \<open>machineID\<close> and \<open>dataCenterID\<close> as they
  were, whatever the clock shows.
\<close>

theorem Generate_frame:
  "Generate clk s k = Some (r, s', k') \<Longrightarrow> machineID s' = machineID s \<and> dataCenterID s' = dataCenterID s"
  by (cases r) (auto elim!: Generate_SomeE)

text \<open>A call that waits for the next millisecond, on a generator with identifiers 3 and 7.\<close>

theorem Generate_frame_witness:
  "Generate (mocked 1629980400010 2 1629980400011)
     \<lparr>machineID = 3, dataCenterID = 7, sequence = 4095, lastTimestamp = 10\<rparr> 0
    = Some ((47067136, None), \<lparr>machineID = 3, dataCenterID = 7, sequence = 0, lastTimestamp = 11\<rparr>, 3)
   \<and> machineID \<lparr>machineID = 3, dataCenterID = 7, sequence = 0, lastTimestamp = 11\<rparr> = 3
   \<and> dataCenterID \<lparr>machineID = 3, dataCenterID = 7, sequence = 0, lastTimestamp = 11\<rparr> = 7"
proof -
  have h: "Generate (mocked 1629980400010 2 1629980400011)
     \<lparr>machineID = 3, dataCenterID = 7, sequence = 4095, lastTimestamp = 10\<rparr> 0
    = Some ((47067136, None), \<lparr>machineID = 3, dataCenterID = 7, sequence = 0, lastTimestamp = 11\<rparr>, 3)"
    by (simp add: Generate_def finish_def build_id_def now_timestamp_def mocked_def epoch_def shifts
        max_words Let_def wait_loop.simps)
  from Generate_frame [OF h] h show ?thesis by simp
qed

subsection \<open>Signed and unsigned readings of a word\<close>

lemma uint_eq_sint: "0 \<le> sint (w::int64) \<Longrightarrow> uint w = sint w"
proof -
  assume a: "0 \<le> sint w"
  have "sint w < 2 ^ 64"
    by (rule less_trans [OF sint_lt]) simp
  with a have "take_bit 64 (sint w) = sint w"
    by (rule take_bit_int_eq_self)
  then show ?thesis by (simp only: uint_sint [of w] len_bit0 len_num1 mult_numeral_1_right numeral_times_numeral semiring_norm)
qed

lemma sint_eq_uint': "uint (w::int64) < 2 ^ 63 \<Longrightarrow> sint w = uint w"
proof -
  assume a: "uint w < 2 ^ 63"
  have b: "- (2 ^ 63) \<le> uint w"
    by (rule order_trans [of _ 0]) simp_all
  have "signed_take_bit 63 (uint w) = uint w"
    using b a by (rule signed_take_bit_int_eq_self)
  then show ?thesis by (simp add: sint_uint)
qed

lemma signed_range_iff:
  assumes "0 \<le>s (c::int64)"
  shows "(0 \<le>s w \<and> w \<le>s c) \<longleftrightarrow> w \<le> c"
proof
  from assms have c: "0 \<le> sint c" by (simp add: word_sle_eq)
  then have uc: "uint c = sint c" by (rule uint_eq_sint)
  {
    assume "0 \<le>s w \<and> w \<le>s c"
    then have w: "0 \<le> sint w" "sint w \<le> sint c" by (simp_all add: word_sle_eq)
    from w(1) have "uint w = sint w" by (rule uint_eq_sint)
    with w(2) uc have "uint w \<le> uint c" by simp
    then show "w \<le> c" by (simp only: word_le_def)
  }
  {
    assume "w \<le> c"
    then have le: "uint w \<le> uint c" by (simp only: word_le_def)
    have "sint c < 2 ^ 63" using sint_lt [of c] by simp
    with le uc have "uint w < 2 ^ 63" by simp
    then have "sint w = uint w" by (rule sint_eq_uint')
    with le uc have "0 \<le> sint w \<and> sint w \<le> sint c" by simp
    then show "0 \<le>s w \<and> w \<le>s c" by (simp add: word_sle_eq)
  }
qed

subsection \<open>Shifts and masks as division and remainder\<close>



lemma unat_take: "unat (take_bit n (x::int64)) = unat x mod 2 ^ n"
  by (simp only: unsigned_take_bit_eq) (rule take_bit_eq_mod)








lemma unat_less_take_bit: "unat (w::int64) < 2 ^ n \<Longrightarrow> take_bit n w = w"
  by (simp add: word_unat_eq_iff unat_take)


lemma incr_wrap:
  assumes "unat (q::int64) \<le> 4095" "take_bit 12 (q + 1) = 0"
  shows "q = 4095"
proof -
  from assms(1) have s: "unat (q + 1) = unat q + 1" by (simp add: unat_word_ariths)
  from assms(2) have "unat (take_bit 12 (q + 1)) = 0" by simp
  then have "(unat q + 1) mod 2 ^ 12 = 0" by (simp only: unat_take s)
  then have "(4096::nat) dvd unat q + 1" by (simp add: mod_eq_0_iff_dvd)
  then have "4096 \<le> unat q + 1" by (rule dvd_imp_le) simp
  with assms(1) have "unat q = 4095" by simp
  then have "unat q = unat (4095::int64)" by simp
  then show ?thesis by (simp only: word_unat_eq_iff)
qed

subsection \<open>Valid generators\<close>

lemma valid_unat:
  assumes "valid s"
  shows "unat (machineID s) \<le> 31" "unat (dataCenterID s) \<le> 31" "unat (sequence s) \<le> 4095"
proof -
  have c: "0 \<le>s (31::int64)" "0 \<le>s (4095::int64)" by (simp_all add: word_sle_eq)
  from assms have "machineID s \<le> 31" "dataCenterID s \<le> 31" "sequence s \<le> 4095"
    unfolding valid_def max_words
    using signed_range_iff [OF c(1)] signed_range_iff [OF c(2)] by blast+
  then show "unat (machineID s) \<le> 31" "unat (dataCenterID s) \<le> 31" "unat (sequence s) \<le> 4095"
    by (simp_all add: word_le_nat_alt)
qed

lemma valid_iff:
  "valid s \<longleftrightarrow> unat (machineID s) \<le> 31 \<and> unat (dataCenterID s) \<le> 31 \<and> unat (sequence s) \<le> 4095"
proof -
  have c: "0 \<le>s (31::int64)" "0 \<le>s (4095::int64)" by (simp_all add: word_sle_eq)
  have "valid s \<longleftrightarrow> machineID s \<le> 31 \<and> dataCenterID s \<le> 31 \<and> sequence s \<le> 4095"
    unfolding valid_def max_words
    using signed_range_iff [OF c(1)] signed_range_iff [OF c(2)] by blast
  then show ?thesis by (simp add: word_le_nat_alt)
qed

lemma valid_take_bit:
  assumes "valid s"
  shows "take_bit 5 (machineID s) = machineID s" "take_bit 5 (dataCenterID s) = dataCenterID s"
    "take_bit 12 (sequence s) = sequence s"
  using valid_unat [OF assms] by (simp_all add: unat_less_take_bit)

lemma and_4095: "(x::int64) AND 4095 = take_bit 12 x"
  by (simp add: take_bit_eq_mask mask_eq_exp_minus_1)

lemma NewSnowflake_valid: "NewSnowflake mID dcID = Inr s \<Longrightarrow> valid s"
  by (auto simp: NewSnowflake_def valid_def max_words word_sle_eq word_sless_alt split: if_splits)

lemma NewSnowflake_Inr:
  "NewSnowflake mID dcID = Inr s \<Longrightarrow>
   s = \<lparr>machineID = mID, dataCenterID = dcID, sequence = 0, lastTimestamp = 0\<rparr>"
  by (auto simp: NewSnowflake_def split: if_splits)

lemma Generate_valid:
  assumes "Generate clk s k = Some ((ident, err), s', k')" "valid s"
  shows "valid s'"
  using assms(1)
proof (cases rule: Generate_SomeE)
  case new
  with assms(2) show ?thesis by (simp add: valid_iff)
next
  case same
  have "unat (take_bit 12 (sequence s + 1)) < 4096"
    by (simp only: unat_take) simp
  with same assms(2) show ?thesis by (simp add: valid_iff and_4095)
next
  case (wait j)
  with assms(2) show ?thesis by (simp add: valid_iff)
qed

lemma Generate_ids:
  assumes "Generate clk s k = Some ((ident, err), s', k')"
  shows "machineID s' = machineID s" "dataCenterID s' = dataCenterID s"
    "err = None" "ident = build_id (lastTimestamp s') s'" "k < k'"
  using assms by (auto elim!: Generate_SomeE)

subsection \<open>The fields of a built identifier\<close>

lemma build_id_canonical:
  assumes "valid s"
  shows "build_id ts s =
    push_bit 22 ts OR push_bit 17 (take_bit 5 (dataCenterID s))
      OR push_bit 12 (take_bit 5 (machineID s)) OR take_bit 12 (sequence s)"
  by (simp add: build_id_def shifts valid_take_bit [OF assms])

lemma canonical_sequence:
  "(push_bit 22 ts OR push_bit 17 (take_bit 5 d) OR push_bit 12 (take_bit 5 m) OR take_bit 12 q) AND mask 12
     = take_bit 12 (q::int64)"
  by (rule bit_eqI) (auto simp: bit_simps)

lemma canonical_machine:
  "drop_bit 12 (push_bit 22 ts OR push_bit 17 (take_bit 5 d) OR push_bit 12 (take_bit 5 m) OR take_bit 12 q) AND mask 5
     = take_bit 5 (m::int64)"
  by (rule bit_eqI) (auto simp: bit_simps)

lemma canonical_dataCenter:
  "drop_bit 17 (push_bit 22 ts OR push_bit 17 (take_bit 5 d) OR push_bit 12 (take_bit 5 m) OR take_bit 12 q) AND mask 5
     = take_bit 5 (d::int64)"
  by (rule bit_eqI) (auto simp: bit_simps)

lemma canonical_timestamp:
  "drop_bit 22 (push_bit 22 ts OR push_bit 17 (take_bit 5 d) OR push_bit 12 (take_bit 5 m) OR take_bit 12 q)
     = take_bit 42 (ts::int64)"
  by (rule bit_eqI) (auto simp: bit_simps)


lemma canonical_lower:
  "take_bit 12 (push_bit 22 ts OR push_bit 17 (take_bit 5 d) OR push_bit 12 (take_bit 5 m) OR take_bit 12 q)
     = take_bit 12 (q::int64)"
  by (rule bit_eqI) (auto simp: bit_simps)

lemma build_id_fields:
  assumes "valid s"
  shows "sequence_field (build_id ts s) = sequence s"
    "machine_field (build_id ts s) = machineID s"
    "dataCenter_field (build_id ts s) = dataCenterID s"
    "timestamp_field (build_id ts s) = take_bit 42 ts"
  unfolding build_id_canonical [OF assms] sequence_field_def machine_field_def dataCenter_field_def
    timestamp_field_def shifts sequenceBits_def machineBits_def dataCenterBits_def
    canonical_sequence canonical_machine canonical_dataCenter canonical_timestamp
  by (simp_all add: valid_take_bit [OF assms])

lemma calls_fields:
  "calls clk n s k = Some (ids, fin) \<Longrightarrow> valid s \<Longrightarrow> ident \<in> set ids \<Longrightarrow>
   dataCenter_field ident = dataCenterID s \<and> machine_field ident = machineID s"
proof (induction n arbitrary: s k ids)
  case 0
  then show ?case by simp
next
  case (Suc n)
  from Suc.prems(1) obtain i1 err s1 k1 ids1 where
    g: "Generate clk s k = Some ((i1, err), s1, k1)" and
    c: "calls clk n s1 k1 = Some (ids1, fin)" and
    i: "ids = (if err = None then [i1] else []) @ ids1"
    by (auto split: option.splits)
  note f = Generate_ids [OF g]
  from g Suc.prems(2) have v: "valid s1" by (rule Generate_valid)
  from i f(3) Suc.prems(3) consider "ident = i1" | "ident \<in> set ids1" by auto
  then show ?case
  proof cases
    case 1
    with f v show ?thesis by (simp add: build_id_fields)
  next
    case 2
    with Suc.IH [OF c v] f show ?thesis by simp
  qed
qed

text \<open>The definitions that evaluate a call at a concrete generator and mocked clock.\<close>

lemmas eval_defs = Generate_def finish_def build_id_def now_timestamp_def mocked_def epoch_def
  shifts max_words Let_def

section \<open>Field round trip\<close>

text \<open>
  Claim C4. Every identifier that \<^verbatim>\<open>Generate\<close> returns on a generator constructed with
  \<open>machineID\<close> and \<open>dataCenterID\<close> has \<open>dataCenterID\<close> in bits 17 to 21 (shift right by
  17, mask 5 bits) and \<open>machineID\<close> in bits 12 to 16 (shift right by 12, mask 5 bits).
\<close>

theorem field_round_trip:
  "NewSnowflake mID dcID = Inr s0 \<Longrightarrow> calls clk n s0 k = Some (ids, fin) \<Longrightarrow> ident \<in> set ids \<Longrightarrow>
   dataCenter_field ident = dcID \<and> machine_field ident = mID"
proof -
  assume n: "NewSnowflake mID dcID = Inr s0" and c: "calls clk n s0 k = Some (ids, fin)"
    and i: "ident \<in> set ids"
  from n have "valid s0" by (rule NewSnowflake_valid)
  from calls_fields [OF c this i] NewSnowflake_Inr [OF n] show ?thesis by simp
qed

text \<open>Three calls on a generator made with machine 3 and data centre 7, the third in the next millisecond.\<close>

theorem field_round_trip_witness:
  "NewSnowflake 3 7 = Inr \<lparr>machineID = 3, dataCenterID = 7, sequence = 0, lastTimestamp = 0\<rparr>
   \<and> calls (mocked 1629980400010 2 1629980400011) 3
         \<lparr>machineID = 3, dataCenterID = 7, sequence = 0, lastTimestamp = 0\<rparr> 0
       = Some ([42872832, 42872833, 47067136],
           \<lparr>machineID = 3, dataCenterID = 7, sequence = 0, lastTimestamp = 11\<rparr>, 3)
   \<and> dataCenter_field 47067136 = 7 \<and> machine_field 47067136 = 3"
proof -
  have n: "NewSnowflake 3 7 = Inr \<lparr>machineID = 3, dataCenterID = 7, sequence = 0, lastTimestamp = 0\<rparr>"
    by (simp add: NewSnowflake_def max_words word_sless_alt)
  have c: "calls (mocked 1629980400010 2 1629980400011) 3
         \<lparr>machineID = 3, dataCenterID = 7, sequence = 0, lastTimestamp = 0\<rparr> 0
       = Some ([42872832, 42872833, 47067136],
           \<lparr>machineID = 3, dataCenterID = 7, sequence = 0, lastTimestamp = 11\<rparr>, 3)"
    by (simp add: calls_numeral eval_defs)
  have i: "(47067136::int64) \<in> set [42872832, 42872833, 47067136]" by simp
  from field_round_trip [OF n c i] n c show ?thesis by simp
qed

section \<open>Three calls in one millisecond\<close>

text \<open>
  Claim C8. On a fresh generator with machine 1 and data centre 1, when the clock shows
  the same millisecond \<open>t\<close> at three successive calls and its timestamp
  \<open>t - epoch\<close> is positive, the three calls return identifiers with the same timestamp
  field, data-centre field 1, machine field 1, and sequence fields 0, 1 and 2.
\<close>

theorem three_calls_same_millisecond:
  assumes "NewSnowflake 1 1 = Inr s0"
    and "clk 0 = t" "clk 1 = t" "clk 2 = t"
    and "0 <s t - word_of_int epoch"
  shows "\<exists>i1 i2 i3 fin. calls clk 3 s0 0 = Some ([i1, i2, i3], fin) \<and>
    timestamp_field i1 = timestamp_field i2 \<and> timestamp_field i2 = timestamp_field i3 \<and>
    dataCenter_field i1 = 1 \<and> dataCenter_field i2 = 1 \<and> dataCenter_field i3 = 1 \<and>
    machine_field i1 = 1 \<and> machine_field i2 = 1 \<and> machine_field i3 = 1 \<and>
    sequence_field i1 = 0 \<and> sequence_field i2 = 1 \<and> sequence_field i3 = 2"
proof -
  define T where "T = t - word_of_int epoch"
  from assms(5) have T0: "T \<noteq> 0" unfolding T_def by auto
  from assms(2-4) have now: "now_timestamp clk 0 = T" "now_timestamp clk (Suc 0) = T"
    "now_timestamp clk (Suc (Suc 0)) = T"
    by (simp_all add: now_timestamp_def T_def numeral_2_eq_2)
  define s1 s2 s3 :: Snowflake where
    "s1 = \<lparr>machineID = 1, dataCenterID = 1, sequence = 0, lastTimestamp = T\<rparr>" and
    "s2 = \<lparr>machineID = 1, dataCenterID = 1, sequence = 1, lastTimestamp = T\<rparr>" and
    "s3 = \<lparr>machineID = 1, dataCenterID = 1, sequence = 2, lastTimestamp = T\<rparr>"
  have s0: "s0 = \<lparr>machineID = 1, dataCenterID = 1, sequence = 0, lastTimestamp = 0\<rparr>"
    using assms(1) by (rule NewSnowflake_Inr)
  have g1: "Generate clk s0 0 = Some ((build_id T s1, None), s1, Suc 0)"
    using T0 now by (simp add: Generate_new s0 s1_def)
  have g2: "Generate clk s1 (Suc 0) = Some ((build_id T s2, None), s2, Suc (Suc 0))"
    using now by (simp add: Generate_same s1_def s2_def build_id_def)
  have g3: "Generate clk s2 (Suc (Suc 0)) = Some ((build_id T s3, None), s3, Suc (Suc (Suc 0)))"
    using now by (simp add: Generate_same s2_def s3_def build_id_def)
  have c: "calls clk 3 s0 0 = Some ([build_id T s1, build_id T s2, build_id T s3], s3, 3)"
    using g1 g2 g3 by (simp add: calls_numeral)
  have v: "valid s1" "valid s2" "valid s3"
    by (simp_all add: valid_iff s1_def s2_def s3_def)
  have f: "sequence s1 = 0" "sequence s2 = 1" "sequence s3 = 2"
    "machineID s1 = 1" "machineID s2 = 1" "machineID s3 = 1"
    "dataCenterID s1 = 1" "dataCenterID s2 = 1" "dataCenterID s3 = 1"
    by (simp_all add: s1_def s2_def s3_def)
  show ?thesis
    using c by (simp add: build_id_fields v f)
qed

text \<open>The clock mocked at millisecond 77 after the epoch.\<close>

theorem three_calls_same_millisecond_witness:
  "calls (mocked 1629980400077 3 1629980400078) 3
      \<lparr>machineID = 1, dataCenterID = 1, sequence = 0, lastTimestamp = 0\<rparr> 0
     = Some ([323096576, 323096577, 323096578],
         \<lparr>machineID = 1, dataCenterID = 1, sequence = 2, lastTimestamp = 77\<rparr>, 3)
   \<and> timestamp_field 323096576 = timestamp_field 323096577
   \<and> timestamp_field 323096577 = timestamp_field 323096578
   \<and> sequence_field 323096576 = 0 \<and> sequence_field 323096577 = 1 \<and> sequence_field 323096578 = 2"
proof -
  have n: "NewSnowflake 1 1 = Inr \<lparr>machineID = 1, dataCenterID = 1, sequence = 0, lastTimestamp = 0\<rparr>"
    by (simp add: NewSnowflake_def max_words word_sless_alt)
  have r: "mocked 1629980400077 3 1629980400078 0 = 1629980400077"
    "mocked 1629980400077 3 1629980400078 1 = 1629980400077"
    "mocked 1629980400077 3 1629980400078 2 = 1629980400077"
    by (simp_all add: mocked_def)
  have p: "0 <s (1629980400077::int64) - word_of_int epoch"
    by (simp add: epoch_def word_sless_alt)
  have c: "calls (mocked 1629980400077 3 1629980400078) 3
      \<lparr>machineID = 1, dataCenterID = 1, sequence = 0, lastTimestamp = 0\<rparr> 0
     = Some ([323096576, 323096577, 323096578],
         \<lparr>machineID = 1, dataCenterID = 1, sequence = 2, lastTimestamp = 77\<rparr>, 3)"
    by (simp add: calls_numeral eval_defs)
  from three_calls_same_millisecond [OF n r p] c show ?thesis by auto
qed

lemma timestamps_numeral:
  "timestamps clk (numeral n) s k =
     (case Generate clk s k of
        None \<Rightarrow> None
      | Some ((ident, err), s', k') \<Rightarrow>
          (case timestamps clk (pred_numeral n) s' k' of
             None \<Rightarrow> None
           | Some ts \<Rightarrow> Some ((if err = None then [lastTimestamp s'] else []) @ ts)))"
  by (simp only: numeral_eq_Suc timestamps.simps)

lemma Generate_reading:
  assumes "Generate clk s k = Some ((ident, err), s', k')"
  shows "\<exists>j. k \<le> j \<and> k' = Suc j \<and> lastTimestamp s' = now_timestamp clk j"
  using assms
proof (cases rule: Generate_SomeE)
  case new
  then show ?thesis by simp
next
  case same
  then show ?thesis by simp
next
  case (wait j)
  then show ?thesis by (intro exI [of _ j]) simp
qed

lemma timestamps_mono:
  assumes "timestamps_never_regress clk" "i \<le> j"
  shows "now_timestamp clk i \<le>s now_timestamp clk j"
  using assms(2)
proof (induction j)
  case 0
  then show ?case by simp
next
  case (Suc j)
  show ?case
  proof (cases "i = Suc j")
    case True
    then show ?thesis by simp
  next
    case False
    with Suc have "now_timestamp clk i \<le>s now_timestamp clk j" by simp
    moreover from assms(1) have "now_timestamp clk j \<le>s now_timestamp clk (Suc j)"
      by (simp add: timestamps_never_regress_def)
    ultimately show ?thesis by (rule signed.order_trans)
  qed
qed

lemma timestamps_sorted:
  "timestamps clk n s k = Some ts \<Longrightarrow> timestamps_never_regress clk \<Longrightarrow>
   sorted_wrt (\<le>s) ts \<and> (\<forall>t\<in>set ts. now_timestamp clk k \<le>s t)"
proof (induction n arbitrary: s k ts)
  case 0
  then show ?case by simp
next
  case (Suc n)
  from Suc.prems(1) obtain i1 err s1 k1 ts1 where
    g: "Generate clk s k = Some ((i1, err), s1, k1)" and
    c: "timestamps clk n s1 k1 = Some ts1" and
    i: "ts = (if err = None then [lastTimestamp s1] else []) @ ts1"
    by (auto split: option.splits)
  from Generate_ids(3) [OF g] i have ts: "ts = lastTimestamp s1 # ts1" by simp
  from Generate_reading [OF g] obtain j where
    j: "k \<le> j" "k1 = Suc j" "lastTimestamp s1 = now_timestamp clk j" by auto
  from Suc.IH [OF c Suc.prems(2)] have
    ih: "sorted_wrt (\<le>s) ts1" "\<forall>t\<in>set ts1. now_timestamp clk k1 \<le>s t" by simp_all
  have a: "now_timestamp clk k \<le>s now_timestamp clk j"
    using Suc.prems(2) j(1) by (rule timestamps_mono)
  have b: "now_timestamp clk j \<le>s now_timestamp clk k1"
    using Suc.prems(2) j(2) by (intro timestamps_mono) simp_all
  have "\<forall>t\<in>set ts1. now_timestamp clk j \<le>s t"
    using ih(2) b by (blast intro: signed.order_trans)
  moreover from this a have "\<forall>t\<in>set ts1. now_timestamp clk k \<le>s t"
    by (blast intro: signed.order_trans)
  ultimately show ?case using ih(1) a j(3) ts by simp
qed

section \<open>The last timestamp\<close>

text \<open>
  What the code keeps: in a run in which the observed timestamps \<open>now_ms - epoch\<close> never
  regress, the value of \<open>lastTimestamp\<close> after each call is at least its value after the
  call before.
\<close>

lemma lastTimestamp_nondecreasing:
  "timestamps_never_regress clk \<Longrightarrow> timestamps clk n s k = Some ts \<Longrightarrow> sorted_wrt (\<le>s) ts"
  using timestamps_sorted by blast

text \<open>
  Claim C3. Across every sequence of successful calls on one generator, \<open>lastTimestamp\<close>
  is to be non-decreasing. The code does not keep it so: on a fresh generator with machine
  1 and data centre 1 called at the milliseconds 10, 5 and 10 after the epoch, all three
  calls succeed, \<open>lastTimestamp\<close> is 10, then 5, then 10 again, and the third call
  returns the identifier 42078208 of the first, where the comment of \<^verbatim>\<open>Generate\<close> says
  that it generates a unique identifier.
\<close>

theorem lastTimestamp_falls_and_identifier_repeats:
  "NewSnowflake 1 1 = Inr \<lparr>machineID = 1, dataCenterID = 1, sequence = 0, lastTimestamp = 0\<rparr>
   \<and> timestamps (readings [1629980400010, 1629980400005, 1629980400010]) 3
        \<lparr>machineID = 1, dataCenterID = 1, sequence = 0, lastTimestamp = 0\<rparr> 0 = Some [10, 5, 10]
   \<and> \<not> sorted_wrt (\<le>s) [10, 5, 10 :: int64]
   \<and> calls (readings [1629980400010, 1629980400005, 1629980400010]) 3
        \<lparr>machineID = 1, dataCenterID = 1, sequence = 0, lastTimestamp = 0\<rparr> 0
      = Some ([42078208, 21106688, 42078208],
          \<lparr>machineID = 1, dataCenterID = 1, sequence = 0, lastTimestamp = 10\<rparr>, 3)
   \<and> \<not> distinct [42078208, 21106688, 42078208 :: int64]"
  by (simp add: NewSnowflake_def calls_numeral timestamps_numeral Generate_def finish_def
      build_id_def now_timestamp_def readings_def epoch_def shifts max_words Let_def
      word_sless_alt word_sle_eq)

lemma and_maxSequence: "(x::int64) AND word_of_int maxSequence = x mod 2 ^ sequenceBits"
  by (simp add: max_words and_4095 sequenceBits_def take_bit_eq_mod)

lemma sequence_field_build_id: "sequence_field (build_id ts s) = take_bit 12 (sequence s)"
  unfolding sequence_field_def build_id_def shifts sequenceBits_def
  by (rule bit_eqI) (auto simp: bit_simps)

lemma Generate_waited:
  assumes "now_timestamp clk k = lastTimestamp s" "(sequence s + 1) AND 4095 = 0"
    and "k < j" "now_timestamp clk j \<noteq> lastTimestamp s"
    and "\<forall>i. k < i \<and> i < j \<longrightarrow> now_timestamp clk i = lastTimestamp s"
  shows "Generate clk s k =
    Some ((build_id (now_timestamp clk j) (s\<lparr>sequence := 0\<rparr>), None),
          s\<lparr>sequence := 0, lastTimestamp := now_timestamp clk j\<rparr>, Suc j)"
proof -
  have "wait_loop clk (lastTimestamp s) (lastTimestamp s) (Suc k) = Some (now_timestamp clk j, Suc j)"
    using assms(3-5) by (intro wait_loop_first) (simp_all add: Suc_le_eq)
  with assms(1,2) show ?thesis by (simp add: Generate_wait build_id_def)
qed

section \<open>The same millisecond\<close>

text \<open>
  The path of \<^verbatim>\<open>Generate\<close> at a timestamp equal to \<open>lastTimestamp\<close>, as the code has it.
  The sequence becomes \<open>(sequence + 1) mod 2 ^ sequenceBits\<close>. If that is not 0, the call
  returns at once with that sequence. If it is 0, the call reads the clock again until the
  observed timestamp differs from \<open>lastTimestamp\<close>: with \<open>j\<close> the first later reading
  that differs, it returns the identifier built from that timestamp and sequence 0, whose
  sequence field is 0 and whose timestamp field is that timestamp (its low 42 bits, on a
  valid generator), and stores the timestamp. If no later reading differs, the call does
  not return.
\<close>

lemma Generate_same_millisecond:
  assumes "now_timestamp clk k = lastTimestamp s"
  shows
    "(sequence s + 1) AND word_of_int maxSequence = (sequence s + 1) mod 2 ^ sequenceBits \<and>
     ((sequence s + 1) mod 2 ^ sequenceBits \<noteq> 0 \<longrightarrow>
        Generate clk s k =
          Some ((build_id (lastTimestamp s) (s\<lparr>sequence := (sequence s + 1) mod 2 ^ sequenceBits\<rparr>), None),
                s\<lparr>sequence := (sequence s + 1) mod 2 ^ sequenceBits\<rparr>, Suc k)) \<and>
     ((sequence s + 1) mod 2 ^ sequenceBits = 0 \<and> k < j \<and> now_timestamp clk j \<noteq> lastTimestamp s \<and>
      (\<forall>i. k < i \<and> i < j \<longrightarrow> now_timestamp clk i = lastTimestamp s) \<longrightarrow>
        Generate clk s k =
          Some ((build_id (now_timestamp clk j) (s\<lparr>sequence := 0\<rparr>), None),
                s\<lparr>sequence := 0, lastTimestamp := now_timestamp clk j\<rparr>, Suc j) \<and>
        sequence_field (build_id (now_timestamp clk j) (s\<lparr>sequence := 0\<rparr>)) = 0 \<and>
        (valid s \<longrightarrow>
           timestamp_field (build_id (now_timestamp clk j) (s\<lparr>sequence := 0\<rparr>))
             = take_bit 42 (now_timestamp clk j)) \<and>
        (lastTimestamp s \<le>s now_timestamp clk j \<longrightarrow> lastTimestamp s <s now_timestamp clk j)) \<and>
     ((sequence s + 1) mod 2 ^ sequenceBits = 0 \<and> (\<forall>i>k. now_timestamp clk i = lastTimestamp s) \<longrightarrow>
        Generate clk s k = None)"
proof (intro conjI impI)
  show m: "(sequence s + 1) AND word_of_int maxSequence = (sequence s + 1) mod 2 ^ sequenceBits"
    by (rule and_maxSequence)
  have m': "(sequence s + 1) AND 4095 = (sequence s + 1) mod 2 ^ sequenceBits"
    using m by (simp only: max_words)
  {
    assume "(sequence s + 1) mod 2 ^ sequenceBits \<noteq> 0"
    with assms show "Generate clk s k =
          Some ((build_id (lastTimestamp s) (s\<lparr>sequence := (sequence s + 1) mod 2 ^ sequenceBits\<rparr>), None),
                s\<lparr>sequence := (sequence s + 1) mod 2 ^ sequenceBits\<rparr>, Suc k)"
      by (simp only: Generate_same m' [symmetric] not_False_eq_True)
  }
  {
    assume a: "(sequence s + 1) mod 2 ^ sequenceBits = 0 \<and> k < j \<and> now_timestamp clk j \<noteq> lastTimestamp s \<and>
      (\<forall>i. k < i \<and> i < j \<longrightarrow> now_timestamp clk i = lastTimestamp s)"
    then have z: "(sequence s + 1) AND 4095 = 0" by (simp only: m')
    from assms z a show "Generate clk s k =
          Some ((build_id (now_timestamp clk j) (s\<lparr>sequence := 0\<rparr>), None),
                s\<lparr>sequence := 0, lastTimestamp := now_timestamp clk j\<rparr>, Suc j)"
      by (intro Generate_waited) simp_all
    show "sequence_field (build_id (now_timestamp clk j) (s\<lparr>sequence := 0\<rparr>)) = 0"
      by (simp add: sequence_field_build_id)
    {
      assume "valid s"
      then have "valid (s\<lparr>sequence := 0\<rparr>)" by (simp add: valid_iff)
      then show "timestamp_field (build_id (now_timestamp clk j) (s\<lparr>sequence := 0\<rparr>))
             = take_bit 42 (now_timestamp clk j)"
        by (rule build_id_fields)
    }
    {
      assume "lastTimestamp s \<le>s now_timestamp clk j"
      with a show "lastTimestamp s <s now_timestamp clk j" by auto
    }
  }
  {
    assume a: "(sequence s + 1) mod 2 ^ sequenceBits = 0 \<and> (\<forall>i>k. now_timestamp clk i = lastTimestamp s)"
    then have z: "(sequence s + 1) AND 4095 = 0" by (simp only: m')
    from a assms have "\<forall>i\<ge>k. now_timestamp clk i = lastTimestamp s"
      by (metis le_neq_implies_less)
    with z show "Generate clk s k = None" by (simp add: Generate_None_iff)
  }
qed

text \<open>
  Claim C6. At a timestamp equal to \<open>lastTimestamp\<close>, \<^verbatim>\<open>Generate\<close> sets the sequence to
  \<open>(sequence + 1) mod 2 ^ sequenceBits\<close>, and when that is 0 it is to read the clock again
  until the observed timestamp is strictly greater than \<open>lastTimestamp\<close> and return an
  identifier with sequence 0 and the advanced timestamp. The loop of the code ends at any
  timestamp that differs: on the generator with machine 1, data centre 1,
  \<open>lastTimestamp = 10\<close> and \<open>sequence = 4095\<close>, and a clock that shows the milliseconds
  10, 10 and 3 after the epoch, the sequence wraps to 0 and the loop ends at the reading 3,
  an earlier millisecond, where its comment says that it waits for the next millisecond.
  The call returns 12718080, with timestamp field 3: the identifier that a first call at
  millisecond 3 returns.
\<close>

theorem wait_leaves_on_earlier_millisecond:
  "now_timestamp (readings [1629980400010, 1629980400010, 1629980400003]) 0
     = lastTimestamp \<lparr>machineID = 1, dataCenterID = 1, sequence = 4095, lastTimestamp = 10\<rparr>
   \<and> (sequence \<lparr>machineID = 1, dataCenterID = 1, sequence = 4095, lastTimestamp = 10\<rparr> + 1)
        AND word_of_int maxSequence = 0
   \<and> Generate (readings [1629980400010, 1629980400010, 1629980400003])
        \<lparr>machineID = 1, dataCenterID = 1, sequence = 4095, lastTimestamp = 10\<rparr> 0
      = Some ((12718080, None), \<lparr>machineID = 1, dataCenterID = 1, sequence = 0, lastTimestamp = 3\<rparr>, 3)
   \<and> \<not> lastTimestamp \<lparr>machineID = 1, dataCenterID = 1, sequence = 4095, lastTimestamp = 10\<rparr> <s 3
   \<and> timestamp_field 12718080 = 3
   \<and> NewSnowflake 1 1 = Inr \<lparr>machineID = 1, dataCenterID = 1, sequence = 0, lastTimestamp = 0\<rparr>
   \<and> Generate (readings [1629980400003])
        \<lparr>machineID = 1, dataCenterID = 1, sequence = 0, lastTimestamp = 0\<rparr> 0
      = Some ((12718080, None), \<lparr>machineID = 1, dataCenterID = 1, sequence = 0, lastTimestamp = 3\<rparr>, 1)"
  by (simp add: NewSnowflake_def Generate_def finish_def build_id_def now_timestamp_def
      readings_def epoch_def shifts max_words Let_def wait_loop.simps timestamp_field_def
      word_sless_alt)

subsection \<open>Clocks that never regress and fit\<close>

















section \<open>Monotonicity\<close>




subsection \<open>The pairs of timestamp and sequence in a run\<close>








subsection \<open>A full millisecond\<close>









section \<open>The sequence bound\<close>




end
